theory Spec2Isabelle
  imports Complex_Main "HOL-Library.Word"
begin

unbundle bit_operations_syntax

section \<open>Data model of \<open>gui/mouse.go\<close>\<close>

text \<open>
  The file holds one method, \<open>(gui *GUI) mouseButtonCallback\<close>, the GLFW mouse-button
  callback of the terminal emulator. It reads the terminal's mouse mode, the cursor
  position of the window and the renderer's cell metrics, and writes an xterm mouse
  packet to the terminal (the PTY), or returns without writing, or panics.

  Go's \<open>byte\<close> is an 8-bit word and \<open>rune\<close> a 32-bit word (read signed with \<open>sint\<close>).
  Go's \<open>int\<close> is taken with 64 bits, as on amd64; it is modelled as \<open>int\<close> with the
  wrap-around written out (\<open>int64\<close>). The conversion
  \<open>rune(x + 32)\<close> keeps the low 32 bits and is written out as \<open>rune_of_int\<close>; a
  wrap-around of the sum \<open>x + 32\<close> at 64 bits leaves these 32 bits as they are, so the
  sum is not wrapped again.

  A \<open>float64\<close> is modelled by the real number it denotes. Two things happen to the
  quotient \<open>px / float64(CellWidth())\<close> on the way to the \<open>int\<close>, and both are stated
  with the definition of \<open>cell\<close> below:
  \<^item> the conversion \<open>int(f)\<close> of a \<open>float64\<close> outside the range of \<open>int\<close>, of an
    infinity or of NaN (a cell dimension of zero) is implementation-specific in Go; the
    model takes what the amd64 instruction gives, the least \<open>int\<close>, \<open>- 2^63\<close>;
  \<^item> Go rounds the quotient to a \<open>float64\<close> before \<open>math.Floor\<close>; the model takes the
    exact quotient. The two floors are the same unless the exact quotient lies so close
    below an integer that it rounds to it, and then the floor of the rounded quotient
    is one more. For a cell dimension that fits a \<open>float32\<close> this takes a quotient of
    \<open>2^29\<close> or more in magnitude, or a negative quotient above \<open>- 2^-1074\<close>, which
    rounds to zero. The theorems keep clear of both: where they state a column or row
    exactly, its character \<open>value + 32\<close> is a code point (at most U+10FFFF) and a
    negative quotient is at most \<open>- 2^-1074\<close>; beyond U+10FFFF they state bytes that are
    the same for a value and the next (the replacement character), or only the length of
    the packet.
\<close>

type_synonym byte = "8 word"
type_synonym rune = "32 word"

text \<open>
  Modelled from the spec: the type \<open>terminal.MouseMode\<close> is declared in package
  \<open>terminal\<close>, which is not part of the source at hand. The spec lists its six values;
  \<open>MouseModeOther\<close> stands for any further value, which the \<open>default\<close> branch of the
  switch receives.
\<close>

datatype MouseMode =
    MouseModeNone
  | MouseModeX10
  | MouseModeVT200
  | MouseModeVT200Highlight
  | MouseModeButtonEvent
  | MouseModeAnyEvent
  | MouseModeOther

text \<open>\<open>glfw.Action\<close>: the three values GLFW delivers to a mouse-button callback.\<close>

datatype Action = Release | Press | Repeat

text \<open>\<open>glfw.MouseButton\<close> is an \<open>int\<close>; GLFW numbers the buttons from 0.\<close>

definition MouseButton1 :: int where "MouseButton1 = 0"
definition MouseButton2 :: int where "MouseButton2 = 1"
definition MouseButton3 :: int where "MouseButton3 = 2"
definition MouseButton4 :: int where "MouseButton4 = 3"

text \<open>\<open>glfw.ModifierKey\<close> is an \<open>int\<close> bit mask.\<close>

definition ModShift :: int where "ModShift = 1"
definition ModControl :: int where "ModControl = 2"
definition ModAlt :: int where "ModAlt = 4"
definition ModSuper :: int where "ModSuper = 8"

text \<open>The window \<open>w\<close>: \<open>w.GetCursorPos()\<close> returns the pointer position in pixels.\<close>

record Window =
  GetCursorPos :: "real \<times> real"

text \<open>
  The receiver \<open>gui\<close>, reduced to what the callback touches:
  \<open>gui.terminal.GetMouseMode()\<close>, \<open>gui.renderer.CellWidth()\<close> and \<open>CellHeight()\<close>,
  the bytes handed to \<open>gui.terminal.Write\<close> so far (oldest first) and the messages
  handed to \<open>gui.logger.Infof\<close> so far.
\<close>

record GUI =
  GetMouseMode :: MouseMode
  CellWidth :: real
  CellHeight :: real
  written :: "byte list"
  logged :: "byte list list"

section \<open>The library functions the callback calls\<close>

text \<open>The conversion \<open>rune(i)\<close> of an \<open>int\<close>: the low 32 bits.\<close>

definition rune_of_int :: "int \<Rightarrow> rune" where
  "rune_of_int i = word_of_int i"

text \<open>Constants of package \<open>unicode/utf8\<close>.\<close>

definition RuneError :: rune where "RuneError = 0xFFFD"
definition MaxRune :: rune where "MaxRune = 0x10FFFF"

text \<open>
  \<open>utf8.EncodeRune\<close>: the switch is on \<open>uint32(r)\<close>, so the comparisons are unsigned.
  A surrogate or a value above \<open>MaxRune\<close> is replaced by \<open>RuneError\<close> and falls through
  to the three-byte case.
\<close>

definition encode3 :: "rune \<Rightarrow> byte list" where
  "encode3 r =
     [0xE0 OR ucast (drop_bit 12 r),
      0x80 OR (ucast (drop_bit 6 r) AND 0x3F),
      0x80 OR (ucast r AND 0x3F)]"

definition EncodeRune :: "rune \<Rightarrow> byte list" where
  "EncodeRune r =
     (if r \<le> 0x7F then [ucast r]
      else if r \<le> 0x7FF then
        [0xC0 OR ucast (drop_bit 6 r), 0x80 OR (ucast r AND 0x3F)]
      else if MaxRune < r \<or> (0xD800 \<le> r \<and> r \<le> 0xDFFF) then encode3 RuneError
      else if r \<le> 0xFFFF then encode3 r
      else
        [0xF0 OR ucast (drop_bit 18 r),
         0x80 OR (ucast (drop_bit 12 r) AND 0x3F),
         0x80 OR (ucast (drop_bit 6 r) AND 0x3F),
         0x80 OR (ucast r AND 0x3F)])"

text \<open>
  The verb \<open>%c\<close> of package \<open>fmt\<close> applied to a \<open>rune\<close>: the argument is widened to
  \<open>uint64\<close> with its sign (\<open>scast\<close>), \<open>fmtC\<close> replaces a value above \<open>MaxRune\<close> (so also
  every negative rune) by \<open>RuneError\<close>, and the rune is appended in UTF-8.
\<close>

definition fmtC :: "64 word \<Rightarrow> byte list" where
  "fmtC c = EncodeRune (if ucast MaxRune < c then RuneError else ucast c)"

text \<open>\<open>fmt.Sprintf("\x1b[M%c%c%c", b, x, y)\<close>, as the bytes of the resulting string.\<close>

definition Sprintf :: "rune \<Rightarrow> rune \<Rightarrow> rune \<Rightarrow> byte list" where
  "Sprintf b x y = [0x1B, 0x5B, 0x4D] @ fmtC (scast b) @ fmtC (scast x) @ fmtC (scast y)"

text \<open>\<open>gui.terminal.Write(p)\<close>: the bytes go to the PTY, after those written before.\<close>

definition Write :: "GUI \<Rightarrow> byte list \<Rightarrow> GUI" where
  "Write gui p = gui\<lparr>written := written gui @ p\<rparr>"

text \<open>\<open>gui.logger.Infof("Sending mouse packet: '%v'", packet)\<close>.\<close>

definition Infof :: "GUI \<Rightarrow> byte list \<Rightarrow> GUI" where
  "Infof gui packet =
     gui\<lparr>logged := logged gui @
       [map (of_nat \<circ> of_char) ''Sending mouse packet: '' @ [0x27] @ packet @ [0x27]]\<rparr>"

section \<open>The callback\<close>

text \<open>The wrap-around of 64-bit \<open>int\<close> arithmetic: the two's complement value of the low 64 bits.\<close>

definition int64 :: "int \<Rightarrow> int" where
  "int64 i = (i + 9223372036854775808) mod 18446744073709551616 - 9223372036854775808"

text \<open>
  \<open>int(math.Floor(p / float64(c))) + 1\<close>: the 1-based index of the cell that holds
  pixel \<open>p\<close>, for cells of \<open>c\<close> pixels. The floor \<open>q\<close> of the quotient is converted to
  \<open>int\<close> as it is when it lies in \<open>[- 2^63, 2^63)\<close>; outside of it, and for \<open>c = 0\<close>,
  where the quotient is an infinity or NaN, the conversion gives \<open>- 2^63\<close>. The
  addition of 1 is 64-bit addition.
\<close>

definition cell :: "real \<Rightarrow> real \<Rightarrow> int" where
  "cell p c =
     (let q = \<lfloor>p / c\<rfloor>;
          i = (if c \<noteq> 0 \<and> - 9223372036854775808 \<le> q \<and> q < 9223372036854775808 then q
               else - 9223372036854775808)
      in int64 (i + 1))"


text \<open>
  The button code of normal tracking (the \<open>if action == glfw.Press\<close> chain of the
  VT200 case): \<open>None\<close> where the source returns without sending.
\<close>

definition vt200Button :: "int \<Rightarrow> Action \<Rightarrow> byte option" where
  "vt200Button button action =
     (if action = Press then
        (if button = MouseButton1 then Some 0
         else if button = MouseButton2 then Some 1
         else if button = MouseButton3 then Some 2
         else None)
      else if action = Release then Some 3
      else None)"

text \<open>
  The three \<open>if mod&glfw.ModX > 0 { b |= n }\<close> statements, in the source's order. The
  parameter \<open>mod\<close> of the source is named \<open>mods\<close> here.
\<close>

definition withModifiers :: "int \<Rightarrow> byte \<Rightarrow> byte" where
  "withModifiers mods b =
     (let b = (if 0 < (mods AND ModShift) then b OR 4 else b);
          b = (if 0 < (mods AND ModSuper) then b OR 8 else b);
          b = (if 0 < (mods AND ModControl) then b OR 16 else b)
      in b)"

text \<open>
  \<open>mouseButtonCallback\<close>. The result is \<open>Inl msg\<close> when the source panics with \<open>msg\<close>
  and \<open>Inr gui'\<close>, the receiver after the call, when it returns.
\<close>

definition mouseButtonCallback ::
    "GUI \<Rightarrow> Window \<Rightarrow> int \<Rightarrow> Action \<Rightarrow> int \<Rightarrow> string + GUI" where
  "mouseButtonCallback gui w button action mods =
     (case GetMouseMode gui of
        MouseModeNone \<Rightarrow> Inr gui
      | MouseModeX10 \<Rightarrow>
          (if action = Press then
             (let b = rune_of_int button;
                  (px, py) = GetCursorPos w;
                  x = cell px (CellWidth gui);
                  y = cell py (CellHeight gui);
                  packet = Sprintf (b + 32) (rune_of_int (x + 32)) (rune_of_int (y + 32))
              in Inr (Write gui packet))
           else Inr gui)
      | MouseModeVT200 \<Rightarrow>
          (case vt200Button button action of
             None \<Rightarrow> Inr gui
           | Some b0 \<Rightarrow>
               (let b = withModifiers mods b0;
                    (px, py) = GetCursorPos w;
                    x = cell px (CellWidth gui);
                    y = cell py (CellHeight gui);
                    packet = Sprintf (ucast (b + 32)) (rune_of_int (x + 32)) (rune_of_int (y + 32))
                in Inr (Write (Infof gui packet) packet)))
      | MouseModeVT200Highlight \<Rightarrow> Inl ''VT200 mouse highlight mode not supported''
      | MouseModeButtonEvent \<Rightarrow> Inl ''Mouse button event mode not supported''
      | MouseModeAnyEvent \<Rightarrow> Inl ''Mouse any event mode not supported''
      | MouseModeOther \<Rightarrow> Inl ''Unsupported mouse mode'')"

text \<open>
  What a call did, as its caller and the PTY see it: \<open>Inl msg\<close> when it panicked with
  \<open>msg\<close>, and otherwise \<open>Inr p\<close>, where \<open>p\<close> are the bytes it handed to the PTY, that
  is, what \<open>written\<close> holds after the call beyond what it held before. \<open>Inr []\<close> is a
  call that returned without writing.
\<close>

definition effect :: "GUI \<Rightarrow> string + GUI \<Rightarrow> string + byte list" where
  "effect gui r =
     (case r of Inl msg \<Rightarrow> Inl msg | Inr gui' \<Rightarrow> Inr (drop (length (written gui)) (written gui')))"

section \<open>Facts about the conversions and the UTF-8 encoder\<close>

lemma scast_rune_back: "(ucast (scast (r::rune) :: 64 word) :: rune) = r"
  by (rule bit_word_eqI) (auto simp add: bit_simps)

lemma int_mod_wrap: "- m \<le> k \<Longrightarrow> k < 0 \<Longrightarrow> (k::int) mod m = k + m"
proof -
  assume a: "- m \<le> k" "k < 0"
  have "(k + m) mod m = k mod m" by simp
  moreover have "(k + m) mod m = k + m" using a by (intro mod_pos_pos_trivial) auto
  ultimately show ?thesis by simp
qed

lemma sint_rune_bounds: "- 2147483648 \<le> sint (r::rune)" "sint r < 2147483648"
  using sint_ge[of r] sint_lt[of r] by simp_all

lemma uint_rune_sint: "uint (r::rune) = (if sint r < 0 then sint r + 4294967296 else sint r)"
proof -
  have "uint r = uint (word_of_int (sint r) :: rune)" by simp
  also have "\<dots> = sint r mod 4294967296"
    by (simp only: uint_word_of_int take_bit_eq_mod) simp
  also have "\<dots> = (if sint r < 0 then sint r + 4294967296 else sint r)"
    using sint_rune_bounds[of r] by (auto simp: int_mod_wrap)
  finally show ?thesis .
qed

lemma uint_scast_rune:
  "uint (scast (r::rune) :: 64 word) =
     (if sint r < 0 then sint r + 18446744073709551616 else sint r)"
proof -
  have "uint (scast r :: 64 word) = sint r mod 18446744073709551616"
    by (simp only: scast_eq uint_word_of_int take_bit_eq_mod) simp
  also have "\<dots> = (if sint r < 0 then sint r + 18446744073709551616 else sint r)"
    using sint_rune_bounds[of r] by (auto simp: int_mod_wrap)
  finally show ?thesis .
qed

lemma MaxRune_less_scast:
  "((ucast MaxRune :: 64 word) < scast (r::rune)) = (MaxRune < r)"
  using sint_rune_bounds[of r]
  by (simp add: word_less_def uint_scast_rune uint_rune_sint MaxRune_def)

text \<open>\<open>%c\<close> on a rune, without the detour through \<open>uint64\<close>.\<close>

lemma fmtC_scast: "fmtC (scast r) = EncodeRune (if MaxRune < r then RuneError else r)"
  by (simp add: fmtC_def scast_rune_back MaxRune_less_scast)

lemma tx_or: "(0x80::byte) OR (w AND 0x3F) = 0x80 + (w AND 0x3F)"
proof -
  have "(0x80::byte) AND (w AND 0x3F) = w AND (0x80 AND 0x3F)"
    by (simp only: and.left_commute)
  also have "\<dots> = 0" by simp
  finally show ?thesis by (rule disjunctive_add_eq_or [symmetric])
qed

lemma t2_or: "d < 0x20 \<Longrightarrow> (0xC0::byte) OR d = 0xC0 + d"
proof -
  assume "d < 0x20"
  then have "d < 2 ^ 5" by simp
  then have d: "d AND mask 5 = d" by (rule less_mask_eq)
  have "(0xC0::byte) AND (d AND mask 5) = d AND (0xC0 AND mask 5)"
    by (simp only: and.left_commute)
  also have "\<dots> = 0" by (simp add: mask_eq_exp_minus_1)
  finally have "(0xC0::byte) AND d = 0" by (simp only: d)
  then show ?thesis by (rule disjunctive_add_eq_or [symmetric])
qed

lemma uint_and_3F: "uint ((w::byte) AND 0x3F) = uint w mod 64"
proof -
  have "(0x3F::byte) = mask 6" by (simp add: mask_eq_exp_minus_1)
  then have "uint (w AND 0x3F) = uint (w AND mask 6)" by simp
  also have "\<dots> = uint w mod 64"
    by (simp add: uint_mod_distrib take_bit_eq_mod flip: take_bit_eq_mask)
  finally show ?thesis .
qed

lemma uint_rune_of_int: "0 \<le> v \<Longrightarrow> v < 4294967296 \<Longrightarrow> uint (rune_of_int v) = v"
  by (simp add: rune_of_int_def uint_word_of_int take_bit_eq_mod)

lemma uint_ucast_byte: "uint (ucast (r::rune) :: byte) = uint r mod 256"
  by (simp add: unsigned_ucast_eq take_bit_eq_mod)

lemma uint_drop_bit_rune: "uint (drop_bit n (r::rune)) = uint r div 2 ^ n"
proof -
  have "uint (drop_bit n r) = drop_bit n (take_bit 32 (uint r))"
    by (simp only: unsigned_drop_bit_eq) simp
  also have "take_bit 32 (uint r) = uint r"
    using uint_lt2p[of r] by (simp add: take_bit_eq_mod)
  finally show ?thesis by (simp add: drop_bit_eq_div)
qed

text \<open>A code point from U+0080 to U+07FF takes two bytes, \<open>110xxxxx 10xxxxxx\<close>.\<close>

lemma EncodeRune_two:
  assumes "128 \<le> v" "v \<le> 2047"
  shows "EncodeRune (rune_of_int v) =
           [word_of_int (192 + v div 64), word_of_int (128 + v mod 64)]"
proof -
  let ?r = "rune_of_int v"
  have u: "uint ?r = v" using assms by (simp add: uint_rune_of_int)
  have c1: "\<not> ?r \<le> 0x7F" using assms by (simp add: word_le_def u)
  have c2: "?r \<le> 0x7FF" using assms by (simp add: word_le_def u)
  let ?d = "ucast (drop_bit 6 ?r) :: byte"
  have ud: "uint ?d = v div 64"
    using assms by (simp add: uint_ucast_byte uint_drop_bit_rune u)
  then have "?d < 0x20" using assms by (simp add: word_less_def)
  then have "0xC0 OR ?d = 0xC0 + ?d" by (rule t2_or)
  then have b0: "0xC0 OR ?d = word_of_int (192 + v div 64)"
    by (simp flip: ud)
  let ?e = "ucast ?r :: byte"
  have "uint (?e AND 0x3F) = v mod 64"
    by (simp add: uint_and_3F uint_ucast_byte u mod_mod_cancel)
  then have e: "?e AND 0x3F = word_of_int (v mod 64)"
    by (metis word_of_int_uint)
  have "0x80 OR (?e AND 0x3F) = 0x80 + (?e AND 0x3F)" by (rule tx_or)
  also have "\<dots> = word_of_int (128 + v mod 64)" by (simp add: e)
  finally have b1: "0x80 OR (?e AND 0x3F) = word_of_int (128 + v mod 64)" .
  show ?thesis using c1 c2 b0 b1 by (simp add: EncodeRune_def)
qed

lemma length_encode3: "length (encode3 r) = 3"
  by (simp add: encode3_def)

lemma length_EncodeRune_pos: "0 < length (EncodeRune r)"
  by (simp add: EncodeRune_def encode3_def)

lemma length_EncodeRune_multi: "0x7F < r \<Longrightarrow> 2 \<le> length (EncodeRune r)"
  by (simp add: EncodeRune_def length_encode3 not_le[symmetric])

lemma length_fmtC_pos: "0 < length (fmtC (scast (r::rune)))"
  unfolding fmtC_scast by (rule length_EncodeRune_pos)

lemma length_fmtC_multi: "0x7F < (r::rune) \<Longrightarrow> 2 \<le> length (fmtC (scast r))"
proof -
  assume a: "0x7F < r"
  have "(0x7F::rune) < RuneError" by (simp add: RuneError_def)
  with a have "0x7F < (if MaxRune < r then RuneError else r)" by simp
  then show ?thesis by (simp only: fmtC_scast length_EncodeRune_multi)
qed

text \<open>A code point below U+0080 is written as the byte of that value.\<close>

lemma fmtC_ascii:
  "0 \<le> v \<Longrightarrow> v \<le> 127 \<Longrightarrow> fmtC (scast (rune_of_int v)) = [word_of_int v]"
proof -
  assume a: "0 \<le> v" "v \<le> 127"
  then have u: "uint (rune_of_int v) = v" by (simp add: uint_rune_of_int)
  have "rune_of_int v \<le> 0x7F" "\<not> MaxRune < rune_of_int v"
    using a by (simp_all add: word_le_def word_less_def u MaxRune_def)
  moreover have "(ucast (rune_of_int v) :: byte) = word_of_int v"
    by (simp add: ucast_eq u)
  ultimately show ?thesis by (simp add: fmtC_scast EncodeRune_def)
qed

lemma fmtC_two:
  "128 \<le> v \<Longrightarrow> v \<le> 2047 \<Longrightarrow>
   fmtC (scast (rune_of_int v)) = [word_of_int (192 + v div 64), word_of_int (128 + v mod 64)]"
proof -
  assume a: "128 \<le> v" "v \<le> 2047"
  then have u: "uint (rune_of_int v) = v" by (simp add: uint_rune_of_int)
  have "\<not> MaxRune < rune_of_int v"
    using a by (simp_all add: word_le_def word_less_def u MaxRune_def)
  then show ?thesis using a by (simp add: fmtC_scast EncodeRune_two)
qed



lemma rune_of_int_high: "128 \<le> v \<Longrightarrow> v < 4294967296 \<Longrightarrow> 0x7F < rune_of_int v"
  by (simp add: word_less_def uint_rune_of_int)

lemma rune_of_int_add: "rune_of_int i + 32 = rune_of_int (i + 32)"
  by (simp add: rune_of_int_def)

lemma length_Sprintf:
  "length (Sprintf b x y) =
     3 + length (fmtC (scast b)) + length (fmtC (scast x)) + length (fmtC (scast y))"
  by (simp add: Sprintf_def)

lemma Sprintf_not_Nil: "Sprintf b x y \<noteq> []"
  by (simp add: Sprintf_def)

section \<open>Facts about the callback\<close>

lemma effect_same: "effect gui (Inr gui) = Inr []"
  by (simp add: effect_def)

lemma effect_Write: "effect gui (Inr (Write gui p)) = Inr p"
  by (simp add: effect_def Write_def)

lemma effect_Write_Infof: "effect gui (Inr (Write (Infof gui p) p)) = Inr p"
  by (simp add: effect_def Write_def Infof_def)

lemma effect_Inl: "effect gui (Inl m) = Inl m"
  by (simp add: effect_def)

lemma callback_X10:
  "GetMouseMode gui = MouseModeX10 \<Longrightarrow>
   mouseButtonCallback gui w button action mods =
     (if action = Press then
        Inr (Write gui (Sprintf (rune_of_int button + 32)
              (rune_of_int (cell (fst (GetCursorPos w)) (CellWidth gui) + 32))
              (rune_of_int (cell (snd (GetCursorPos w)) (CellHeight gui) + 32))))
      else Inr gui)"
  by (simp add: mouseButtonCallback_def Let_def split_beta)

lemma callback_VT200:
  "GetMouseMode gui = MouseModeVT200 \<Longrightarrow>
   mouseButtonCallback gui w button action mods =
     (case vt200Button button action of
        None \<Rightarrow> Inr gui
      | Some b0 \<Rightarrow>
          (let p = Sprintf (ucast (withModifiers mods b0 + 32))
                (rune_of_int (cell (fst (GetCursorPos w)) (CellWidth gui) + 32))
                (rune_of_int (cell (snd (GetCursorPos w)) (CellHeight gui) + 32))
           in Inr (Write (Infof gui p) p)))"
  by (simp add: mouseButtonCallback_def Let_def split_beta split: option.splits)

text \<open>Every packet the callback writes has the same shape, in both reporting modes.\<close>

lemma effect_shape:
  assumes "effect gui (mouseButtonCallback gui w button action mods) = Inr p" and "p \<noteq> []"
  shows "\<exists>b. p = Sprintf b
            (rune_of_int (cell (fst (GetCursorPos w)) (CellWidth gui) + 32))
            (rune_of_int (cell (snd (GetCursorPos w)) (CellHeight gui) + 32))"
proof (cases "GetMouseMode gui")
  case MouseModeX10
  with assms show ?thesis
    by (auto simp add: callback_X10 effect_same effect_Write split: if_splits)
next
  case MouseModeVT200
  with assms show ?thesis
    by (auto simp add: callback_VT200 effect_same effect_Write_Infof Let_def
        split: option.splits)
qed (use assms in \<open>simp_all add: mouseButtonCallback_def effect_def\<close>)

section \<open>Facts about the cell index\<close>

lemmas cell_eval = cell_def int64_def Let_def

lemma int64_id:
  "- 9223372036854775808 \<le> i \<Longrightarrow> i < 9223372036854775808 \<Longrightarrow> int64 i = i"
proof -
  assume a: "- 9223372036854775808 \<le> i" "i < 9223372036854775808"
  have "(i + 9223372036854775808) mod 18446744073709551616 = i + 9223372036854775808"
    using a by (intro mod_pos_pos_trivial) simp_all
  then show ?thesis by (simp only: int64_def)
qed

text \<open>Inside the range of \<open>int\<close> the conversion and the addition are exact.\<close>

lemma cell_exact:
  assumes "c \<noteq> 0" and "- 9223372036854775808 \<le> \<lfloor>p / c\<rfloor>"
    and "\<lfloor>p / c\<rfloor> + 1 < 9223372036854775808"
  shows "cell p c = \<lfloor>p / c\<rfloor> + 1"
proof -
  have "cell p c = int64 (\<lfloor>p / c\<rfloor> + 1)"
    using assms by (simp add: cell_def Let_def)
  also have "\<dots> = \<lfloor>p / c\<rfloor> + 1"
    using assms(2,3) by (intro int64_id) linarith+
  finally show ?thesis .
qed

lemma cell_rune_range:
  assumes "c \<noteq> 0" and "v = \<lfloor>p / c\<rfloor> + 1"
    and "- 2147483648 \<le> v + 32" and "v + 32 < 2147483648"
  shows "cell p c = v"
  unfolding assms(2) using assms by (intro cell_exact) linarith+

text \<open>
  With a cell dimension of zero the exact quotient of HOL is 0; a column or row other
  than 1 that is given as the floor of the quotient plus 1 therefore has a cell
  dimension other than zero.
\<close>

lemma cell_nonzero:
  assumes "v = \<lfloor>p / c\<rfloor> + 1" and "v \<noteq> 1"
  shows "c \<noteq> 0"
  using assms by auto

section \<open>Facts about the button code\<close>

lemma vt200Button_Some:
  "vt200Button button action = Some b0 \<Longrightarrow>
   b0 = (if action = Release then 3 else if button = MouseButton1 then 0
         else if button = MouseButton2 then 1 else 2)
   \<and> (b0 = 0 \<or> b0 = 1 \<or> b0 = 2 \<or> b0 = 3)"
  by (auto simp add: vt200Button_def split: if_splits)

lemma vt200Button_None:
  "vt200Button button action = None \<longleftrightarrow>
   \<not> (action = Release \<or> action = Press \<and>
        (button = MouseButton1 \<or> button = MouseButton2 \<or> button = MouseButton3))"
  by (auto simp add: vt200Button_def split: if_splits)

lemma mods_or: 
  "b0 = 0 \<or> b0 = 1 \<or> b0 = 2 \<or> b0 = (3::byte) \<Longrightarrow>
   (if c then (if m then (if s then b0 OR 4 else b0) OR 8 else (if s then b0 OR 4 else b0)) OR 16
    else (if m then (if s then b0 OR 4 else b0) OR 8 else (if s then b0 OR 4 else b0)))
   = b0 + (if s then 4 else 0) + (if m then 8 else 0) + (if c then 16 else 0)"
  by (elim disjE; cases s; cases m; cases c; simp)

lemma uint_button_byte:
  "b0 = 0 \<or> b0 = 1 \<or> b0 = 2 \<or> b0 = (3::byte) \<Longrightarrow>
   uint (b0 + (if s then 4 else 0) + (if m then 8 else 0) + (if c then 16 else 0) + 32)
     = 32 + uint b0 + (if s then 4 else 0) + (if m then 8 else 0) + (if c then 16 else 0)"
  by (elim disjE; cases s; cases m; cases c; simp)

lemma withModifiers_sum:
  assumes "b0 = 0 \<or> b0 = 1 \<or> b0 = 2 \<or> b0 = 3"
  shows "withModifiers mods b0 =
           b0 + (if 0 < (mods AND ModShift) then 4 else 0)
              + (if 0 < (mods AND ModSuper) then 8 else 0)
              + (if 0 < (mods AND ModControl) then 16 else 0)"
  unfolding withModifiers_def Let_def
  by (rule mods_or[OF assms])

lemma uint_withModifiers:
  assumes "b0 = 0 \<or> b0 = 1 \<or> b0 = 2 \<or> b0 = 3"
  shows "uint (withModifiers mods b0 + 32) =
           32 + uint b0 + (if 0 < (mods AND ModShift) then 4 else 0)
              + (if 0 < (mods AND ModSuper) then 8 else 0)
              + (if 0 < (mods AND ModControl) then 16 else 0)"
  unfolding withModifiers_sum[OF assms] by (rule uint_button_byte[OF assms])


lemma withModifiers_range:
  assumes "b0 = 0 \<or> b0 = 1 \<or> b0 = 2 \<or> b0 = 3"
  shows "0 \<le> uint (withModifiers mods b0 + 32) \<and> uint (withModifiers mods b0 + 32) \<le> 127"
proof -
  have "uint b0 \<le> 3" using assms by (elim disjE) simp_all
  then show ?thesis
    unfolding uint_withModifiers[OF assms] by (simp split: if_splits)
qed

lemma button_char:
  assumes "b0 = 0 \<or> b0 = 1 \<or> b0 = 2 \<or> b0 = 3"
  shows "fmtC (scast (ucast (withModifiers mods b0 + 32) :: rune)) = [withModifiers mods b0 + 32]"
proof -
  let ?b = "withModifiers mods b0 + 32"
  have r: "0 \<le> uint ?b" "uint ?b \<le> 127"
    using withModifiers_range[OF assms] by blast+
  have "(ucast ?b :: rune) = rune_of_int (uint ?b)"
    by (simp only: ucast_eq rune_of_int_def)
  moreover have "fmtC (scast (rune_of_int (uint ?b))) = [word_of_int (uint ?b)]"
    by (rule fmtC_ascii[OF r])
  moreover have "(word_of_int (uint ?b) :: byte) = ?b" by (rule word_of_int_uint)
  ultimately show ?thesis by (simp only:)
qed

section \<open>Mode \<open>None\<close> and the modes without an encoder\<close>

text \<open>
  Claim C7. When the mouse mode is \<open>MouseModeNone\<close> the callback returns at once, for
  every button, action, modifier mask, cursor position and cell metrics: the receiver is
  unchanged, so nothing is written to the PTY, and there is no panic.
\<close>

theorem none_mode_is_noop:
  "mouseButtonCallback (gui\<lparr>GetMouseMode := MouseModeNone\<rparr>) w button action mods
     = Inr (gui\<lparr>GetMouseMode := MouseModeNone\<rparr>)
   \<and> effect (gui\<lparr>GetMouseMode := MouseModeNone\<rparr>)
        (mouseButtonCallback (gui\<lparr>GetMouseMode := MouseModeNone\<rparr>) w button action mods)
     = Inr []"
  by (simp add: mouseButtonCallback_def effect_def)

text \<open>
  Claim C1 says that in the modes \<open>VT200Highlight\<close>, \<open>ButtonEvent\<close> and \<open>AnyEvent\<close> the
  encoder returns a recoverable error and never aborts. The source has no error
  result at all: each of these cases is a \<open>panic\<close>. A press of button 1 in highlight
  mode, with cells of 10 by 20 pixels and the pointer at (15, 25), panics.
\<close>

theorem unsupported_mode_panics_example:
  "effect \<lparr>GetMouseMode = MouseModeVT200Highlight, CellWidth = 10, CellHeight = 20,
           written = [], logged = []\<rparr>
     (mouseButtonCallback
        \<lparr>GetMouseMode = MouseModeVT200Highlight, CellWidth = 10, CellHeight = 20,
          written = [], logged = []\<rparr>
        \<lparr>GetCursorPos = (15, 25)\<rparr> MouseButton1 Press 0)
   = Inl ''VT200 mouse highlight mode not supported''"
  by (simp add: mouseButtonCallback_def effect_def)

text \<open>
  Claim C1, amended. For every event, cursor position and cell metrics, the callback
  panics when the mouse mode is \<open>VT200Highlight\<close>, \<open>ButtonEvent\<close> or \<open>AnyEvent\<close>, with
  the message of that mode, and writes no packet.
\<close>

theorem unsupported_modes_panic:
  "mouseButtonCallback (gui\<lparr>GetMouseMode := MouseModeVT200Highlight\<rparr>) w button action mods
     = Inl ''VT200 mouse highlight mode not supported''
   \<and> mouseButtonCallback (gui\<lparr>GetMouseMode := MouseModeButtonEvent\<rparr>) w button action mods
     = Inl ''Mouse button event mode not supported''
   \<and> mouseButtonCallback (gui\<lparr>GetMouseMode := MouseModeAnyEvent\<rparr>) w button action mods
     = Inl ''Mouse any event mode not supported''"
  by (simp add: mouseButtonCallback_def)

section \<open>Determinism\<close>

text \<open>A call that returns leaves the mouse mode and the cell metrics as they were.\<close>

lemma callback_keeps_inputs:
  assumes "mouseButtonCallback gui w button action mods = Inr gui'"
  shows "GetMouseMode gui' = GetMouseMode gui \<and> CellWidth gui' = CellWidth gui
       \<and> CellHeight gui' = CellHeight gui"
proof (cases "GetMouseMode gui")
  case MouseModeX10
  with assms show ?thesis by (auto simp add: callback_X10 Write_def split: if_splits)
next
  case MouseModeVT200
  with assms show ?thesis
    by (auto simp add: callback_VT200 Write_def Infof_def Let_def split: option.splits)
qed (use assms in \<open>simp_all add: mouseButtonCallback_def\<close>)

text \<open>Receivers that agree on the mode and the metrics behave alike.\<close>

lemma effect_agree:
  assumes "GetMouseMode g2 = GetMouseMode g1"
    and "CellWidth g2 = CellWidth g1"
    and "CellHeight g2 = CellHeight g1"
  shows "effect g1 (mouseButtonCallback g1 w button action mods)
       = effect g2 (mouseButtonCallback g2 w button action mods)"
proof (cases "GetMouseMode g1")
  case MouseModeX10
  with assms show ?thesis by (simp add: callback_X10 effect_same effect_Write)
next
  case MouseModeVT200
  with assms show ?thesis
    by (simp add: callback_VT200 effect_same effect_Write_Infof Let_def split: option.splits)
qed (use assms in \<open>simp_all add: mouseButtonCallback_def effect_def\<close>)

text \<open>
  Claim C9. What a call does depends only on the mouse mode, the event (button, action,
  modifiers, cursor position) and the cell metrics: two receivers that agree on the mode
  and the metrics, whatever they wrote and logged before, panic with the same message
  or hand the same bytes to the PTY. In particular a second call with the same event,
  on the receiver the first call left behind, does what the first call did.
\<close>

theorem encoding_deterministic:
  assumes "GetMouseMode g2 = GetMouseMode g1"
    and "CellWidth g2 = CellWidth g1"
    and "CellHeight g2 = CellHeight g1"
  shows "effect g1 (mouseButtonCallback g1 w button action mods)
           = effect g2 (mouseButtonCallback g2 w button action mods)
       \<and> (\<forall>g1'. mouseButtonCallback g1 w button action mods = Inr g1' \<longrightarrow>
             effect g1' (mouseButtonCallback g1' w button action mods)
               = effect g1 (mouseButtonCallback g1 w button action mods))"
proof (intro conjI allI impI)
  show "effect g1 (mouseButtonCallback g1 w button action mods)
           = effect g2 (mouseButtonCallback g2 w button action mods)"
    using assms by (rule effect_agree)
next
  fix g1'
  assume "mouseButtonCallback g1 w button action mods = Inr g1'"
  from callback_keeps_inputs[OF this]
  show "effect g1' (mouseButtonCallback g1' w button action mods)
               = effect g1 (mouseButtonCallback g1 w button action mods)"
    by (intro effect_agree) simp_all
qed

text \<open>
  The theorem at a press of button 2 with Shift, on a receiver that has written and
  logged nothing and on the receiver that this call leaves behind: both calls hand the
  same six bytes to the PTY.
\<close>

theorem encoding_deterministic_witness:
  "mouseButtonCallback \<lparr>GetMouseMode = MouseModeVT200, CellWidth = 10, CellHeight = 20,
        written = [], logged = []\<rparr> \<lparr>GetCursorPos = (15, 25)\<rparr> MouseButton2 Press ModShift
     = Inr \<lparr>GetMouseMode = MouseModeVT200, CellWidth = 10, CellHeight = 20,
        written = [0x1B, 0x5B, 0x4D, 0x25, 0x22, 0x22],
        logged = [[83, 101, 110, 100, 105, 110, 103, 32, 109, 111, 117, 115, 101, 32, 112, 97,
                   99, 107, 101, 116, 58, 32, 39, 0x1B, 0x5B, 0x4D, 0x25, 0x22, 0x22, 39]]\<rparr>
   \<and> effect \<lparr>GetMouseMode = MouseModeVT200, CellWidth = 10, CellHeight = 20,
        written = [], logged = []\<rparr>
       (mouseButtonCallback \<lparr>GetMouseMode = MouseModeVT200, CellWidth = 10, CellHeight = 20,
        written = [], logged = []\<rparr> \<lparr>GetCursorPos = (15, 25)\<rparr> MouseButton2 Press ModShift)
     = Inr [0x1B, 0x5B, 0x4D, 0x25, 0x22, 0x22]
   \<and> effect \<lparr>GetMouseMode = MouseModeVT200, CellWidth = 10, CellHeight = 20,
        written = [0x1B, 0x5B, 0x4D, 0x25, 0x22, 0x22],
        logged = [[83, 101, 110, 100, 105, 110, 103, 32, 109, 111, 117, 115, 101, 32, 112, 97,
                   99, 107, 101, 116, 58, 32, 39, 0x1B, 0x5B, 0x4D, 0x25, 0x22, 0x22, 39]]\<rparr>
       (mouseButtonCallback \<lparr>GetMouseMode = MouseModeVT200, CellWidth = 10, CellHeight = 20,
        written = [0x1B, 0x5B, 0x4D, 0x25, 0x22, 0x22],
        logged = [[83, 101, 110, 100, 105, 110, 103, 32, 109, 111, 117, 115, 101, 32, 112, 97,
                   99, 107, 101, 116, 58, 32, 39, 0x1B, 0x5B, 0x4D, 0x25, 0x22, 0x22, 39]]\<rparr>
         \<lparr>GetCursorPos = (15, 25)\<rparr> MouseButton2 Press ModShift)
     = Inr [0x1B, 0x5B, 0x4D, 0x25, 0x22, 0x22]"
proof -
  let ?g = "\<lparr>GetMouseMode = MouseModeVT200, CellWidth = 10, CellHeight = 20,
        written = [], logged = []\<rparr>"
  let ?g' = "\<lparr>GetMouseMode = MouseModeVT200, CellWidth = 10, CellHeight = 20,
        written = [0x1B, 0x5B, 0x4D, 0x25, 0x22, 0x22],
        logged = [[83, 101, 110, 100, 105, 110, 103, 32, 109, 111, 117, 115, 101, 32, 112, 97,
                   99, 107, 101, 116, 58, 32, 39, 0x1B, 0x5B, 0x4D, 0x25, 0x22, 0x22, 39 :: byte]]\<rparr>"
  let ?w = "\<lparr>GetCursorPos = (15, 25)\<rparr>"
  have c: "mouseButtonCallback ?g ?w MouseButton2 Press ModShift = Inr ?g'"
    by (simp add: mouseButtonCallback_def Write_def Infof_def Sprintf_def fmtC_def
        EncodeRune_def MaxRune_def cell_eval vt200Button_def withModifiers_def rune_of_int_def
        MouseButton1_def MouseButton2_def ModShift_def ModSuper_def ModControl_def)
  then have e: "effect ?g (mouseButtonCallback ?g ?w MouseButton2 Press ModShift)
      = Inr [0x1B, 0x5B, 0x4D, 0x25, 0x22, 0x22]"
    by (simp add: effect_def)
  have a: "GetMouseMode ?g' = GetMouseMode ?g" "CellWidth ?g' = CellWidth ?g"
    "CellHeight ?g' = CellHeight ?g" by simp_all
  have "effect ?g (mouseButtonCallback ?g ?w MouseButton2 Press ModShift)
      = effect ?g' (mouseButtonCallback ?g' ?w MouseButton2 Press ModShift)"
    using encoding_deterministic[OF a, of ?w MouseButton2 Press ModShift] by (rule conjunct1)
  from this[symmetric] e
  have e': "effect ?g' (mouseButtonCallback ?g' ?w MouseButton2 Press ModShift)
      = Inr [0x1B, 0x5B, 0x4D, 0x25, 0x22, 0x22]" by (rule trans)
  from c e e' show ?thesis by (intro conjI)
qed

section \<open>Normal tracking: the modifier bits\<close>

text \<open>
  Claim C6. Whenever normal tracking (VT200) writes a packet, for every modifier mask,
  every button and both press and release, the packet starts with \<open>ESC [ M\<close> and its
  button byte is 32 plus the base button code (0, 1, 2 for a press of button 1, 2, 3,
  and 3 for a release) plus 4 if Shift is held, plus 8 if Meta is held (the source
  tests \<open>glfw.ModSuper\<close> for it) and plus 16 if Control is held, each of the three
  independently of the others. Normal tracking is the only mode that reports modifiers:
  X10 packets carry none.
\<close>

theorem modifier_bits_add:
  assumes "GetMouseMode gui = MouseModeVT200"
    and "effect gui (mouseButtonCallback gui w button action mods) = Inr p"
    and "p \<noteq> []"
  shows "take 3 p = [0x1B, 0x5B, 0x4D] \<and>
         uint (p ! 3) =
           32 + (if action = Release then 3 else if button = MouseButton1 then 0
                 else if button = MouseButton2 then 1 else 2)
              + (if 0 < (mods AND ModShift) then 4 else 0)
              + (if 0 < (mods AND ModSuper) then 8 else 0)
              + (if 0 < (mods AND ModControl) then 16 else 0)"
proof (cases "vt200Button button action")
  case None
  with assms show ?thesis by (simp add: callback_VT200 effect_same)
next
  case (Some b0)
  note b0 = vt200Button_Some[OF Some]
  from b0 have r: "b0 = 0 \<or> b0 = 1 \<or> b0 = 2 \<or> b0 = 3" by blast
  from b0 have v: "uint b0 = (if action = Release then 3 else if button = MouseButton1 then 0
                 else if button = MouseButton2 then 1 else 2)" by (simp split: if_splits)
  from assms Some have "p = Sprintf (ucast (withModifiers mods b0 + 32))
                (rune_of_int (cell (fst (GetCursorPos w)) (CellWidth gui) + 32))
                (rune_of_int (cell (snd (GetCursorPos w)) (CellHeight gui) + 32))"
    by (simp add: callback_VT200 effect_Write_Infof Let_def)
  then have "take 3 p = [0x1B, 0x5B, 0x4D]" "p ! 3 = withModifiers mods b0 + 32"
    by (simp_all add: Sprintf_def button_char[OF r])
  then show ?thesis
    by (simp only: uint_withModifiers[OF r] v)
qed

text \<open>
  The theorem at a release with Shift, Control and Super all held (mask 1 + 2 + 8):
  the button byte is 32 + 3 + 4 + 8 + 16 = 63.
\<close>

theorem modifier_bits_add_witness:
  "GetMouseMode \<lparr>GetMouseMode = MouseModeVT200, CellWidth = 10, CellHeight = 20,
        written = [], logged = []\<rparr> = MouseModeVT200
   \<and> effect \<lparr>GetMouseMode = MouseModeVT200, CellWidth = 10, CellHeight = 20,
        written = [], logged = []\<rparr>
       (mouseButtonCallback \<lparr>GetMouseMode = MouseModeVT200, CellWidth = 10, CellHeight = 20,
        written = [], logged = []\<rparr> \<lparr>GetCursorPos = (15, 25)\<rparr> MouseButton2 Release 11)
       = Inr [0x1B, 0x5B, 0x4D, 0x3F, 0x22, 0x22]
   \<and> [0x1B, 0x5B, 0x4D, 0x3F, 0x22, 0x22] \<noteq> ([] :: byte list)
   \<and> take 3 [0x1B, 0x5B, 0x4D, 0x3F, 0x22, 0x22 :: byte] = [0x1B, 0x5B, 0x4D]
   \<and> uint ([0x1B, 0x5B, 0x4D, 0x3F, 0x22, 0x22 :: byte] ! 3) = 32 + 3 + 4 + 8 + 16"
proof -
  let ?g = "\<lparr>GetMouseMode = MouseModeVT200, CellWidth = 10, CellHeight = 20,
        written = [], logged = []\<rparr>"
  have e: "effect ?g (mouseButtonCallback ?g \<lparr>GetCursorPos = (15, 25)\<rparr> MouseButton2 Release 11)
       = Inr [0x1B, 0x5B, 0x4D, 0x3F, 0x22, 0x22]"
    by (simp add: mouseButtonCallback_def effect_def Write_def Infof_def Sprintf_def fmtC_def
        EncodeRune_def MaxRune_def cell_eval vt200Button_def withModifiers_def rune_of_int_def
        ModShift_def ModSuper_def ModControl_def)
  have m: "GetMouseMode ?g = MouseModeVT200" by simp
  have n: "[0x1B, 0x5B, 0x4D, 0x3F, 0x22, 0x22] \<noteq> ([] :: byte list)" by simp
  show ?thesis
    using modifier_bits_add[OF m e n] e
    by (simp add: ModShift_def ModSuper_def ModControl_def)
qed

section \<open>Normal tracking: the packet of a plain press of button 1\<close>

lemma vt200_plain_button1:
  "vt200Button MouseButton1 Press = Some 0" "withModifiers 0 0 = 0"
  by (simp_all add: vt200Button_def withModifiers_def)

lemma fmtC_space: "fmtC (scast (ucast (32::byte) :: rune)) = [0x20]"
  using button_char[of 0 0] by (simp add: vt200_plain_button1)

text \<open>The bytes of a parameter from 1 to 223.\<close>

lemma param_bytes:
  assumes "1 \<le> v" "v \<le> 223"
  shows "fmtC (scast (rune_of_int (v + 32))) =
     (if v \<le> 95 then [word_of_int (v + 32)]
      else [word_of_int (192 + (v + 32) div 64), word_of_int (128 + (v + 32) mod 64)])"
proof (cases "v \<le> 95")
  case True
  with assms show ?thesis by (simp add: fmtC_ascii)
next
  case False
  with assms show ?thesis by (simp add: fmtC_two)
qed

text \<open>
  Claim C2 says that for every column and row from 1 to 223 a press of button 1 without
  modifiers in VT200 mode produces the six bytes
  \<open>ESC [ M 0x20 chr(column+32) chr(row+32)\<close>, each parameter as one 8-bit character.
  The source formats each parameter with \<open>%c\<close>, which writes a code point in UTF-8:
  from column 96 on (code point 128) the parameter takes two bytes. With cells of 10 by
  20 pixels and the pointer at (955, 25), column 96 and row 2, the packet has seven bytes.
\<close>

theorem six_byte_packet_fails_at_column_96:
  "\<lfloor>(955::real) / 10\<rfloor> + 1 = (96::int) \<and> \<lfloor>(25::real) / 20\<rfloor> + 1 = (2::int)
   \<and> effect \<lparr>GetMouseMode = MouseModeVT200, CellWidth = 10, CellHeight = 20,
        written = [], logged = []\<rparr>
       (mouseButtonCallback \<lparr>GetMouseMode = MouseModeVT200, CellWidth = 10, CellHeight = 20,
        written = [], logged = []\<rparr> \<lparr>GetCursorPos = (955, 25)\<rparr> MouseButton1 Press 0)
       = Inr [0x1B, 0x5B, 0x4D, 0x20, 0xC2, 0x80, 0x22]
   \<and> effect \<lparr>GetMouseMode = MouseModeVT200, CellWidth = 10, CellHeight = 20,
        written = [], logged = []\<rparr>
       (mouseButtonCallback \<lparr>GetMouseMode = MouseModeVT200, CellWidth = 10, CellHeight = 20,
        written = [], logged = []\<rparr> \<lparr>GetCursorPos = (955, 25)\<rparr> MouseButton1 Press 0)
       \<noteq> Inr [0x1B, 0x5B, 0x4D, 0x20, word_of_int (96 + 32), word_of_int (2 + 32)]"
  by (simp add: mouseButtonCallback_def effect_def Write_def Infof_def Sprintf_def fmtC_def
        EncodeRune_def MaxRune_def cell_eval vt200Button_def withModifiers_def rune_of_int_def
        MouseButton1_def ModShift_def ModSuper_def ModControl_def)

text \<open>
  Claim C2, amended. For every column and row from 1 to 223, a press of button 1
  without modifiers in VT200 mode writes \<open>ESC [ M 0x20\<close> followed by the column and
  the row parameter; a parameter up to 95 is the single byte \<open>value + 32\<close>, so for
  columns and rows from 1 to 95 the packet is exactly the six bytes of the claim, and a
  parameter from 96 to 223 is the two UTF-8 bytes of the code point \<open>value + 32\<close>,
  \<open>0xC0 + (value + 32) div 64\<close> and \<open>0x80 + (value + 32) mod 64\<close>.
\<close>

theorem vt200_press_button1_packet:
  assumes "GetMouseMode gui = MouseModeVT200"
    and "0 < CellWidth gui" and "0 < CellHeight gui"
    and "GetCursorPos w = (px, py)"
    and "col = \<lfloor>px / CellWidth gui\<rfloor> + 1" and "row = \<lfloor>py / CellHeight gui\<rfloor> + 1"
    and "1 \<le> col" and "col \<le> 223" and "1 \<le> row" and "row \<le> 223"
  shows "effect gui (mouseButtonCallback gui w MouseButton1 Press 0) =
     Inr ([0x1B, 0x5B, 0x4D, 0x20]
          @ (if col \<le> 95 then [word_of_int (col + 32)]
             else [word_of_int (192 + (col + 32) div 64), word_of_int (128 + (col + 32) mod 64)])
          @ (if row \<le> 95 then [word_of_int (row + 32)]
             else [word_of_int (192 + (row + 32) div 64), word_of_int (128 + (row + 32) mod 64)]))"
proof -
  have "cell px (CellWidth gui) = col"
    using assms(2,5,7,8) by (intro cell_rune_range) simp_all
  moreover have "cell py (CellHeight gui) = row"
    using assms(3,6,9,10) by (intro cell_rune_range) simp_all
  ultimately have c: "cell (fst (GetCursorPos w)) (CellWidth gui) = col"
          "cell (snd (GetCursorPos w)) (CellHeight gui) = row"
    using assms(4) by simp_all
  have "effect gui (mouseButtonCallback gui w MouseButton1 Press 0) =
     Inr (Sprintf (ucast (32::byte)) (rune_of_int (col + 32)) (rune_of_int (row + 32)))"
    using assms(1) by (simp add: callback_VT200 vt200_plain_button1 c effect_Write_Infof Let_def)
  also have "Sprintf (ucast (32::byte)) (rune_of_int (col + 32)) (rune_of_int (row + 32)) =
     [0x1B, 0x5B, 0x4D, 0x20] @ fmtC (scast (rune_of_int (col + 32))) @ fmtC (scast (rune_of_int (row + 32)))"
    by (simp only: Sprintf_def fmtC_space) simp
  finally show ?thesis
    using assms by (simp only: param_bytes)
qed

text \<open>The theorem at column 96 and row 2: one parameter of each kind.\<close>

theorem vt200_press_button1_packet_witness:
  "GetMouseMode \<lparr>GetMouseMode = MouseModeVT200, CellWidth = 10, CellHeight = 20,
        written = [], logged = []\<rparr> = MouseModeVT200
   \<and> (0::real) < 10 \<and> (0::real) < 20
   \<and> 1 \<le> \<lfloor>(955::real) / 10\<rfloor> + 1 \<and> \<lfloor>(955::real) / 10\<rfloor> + 1 \<le> 223
   \<and> 1 \<le> \<lfloor>(25::real) / 20\<rfloor> + 1 \<and> \<lfloor>(25::real) / 20\<rfloor> + 1 \<le> 223
   \<and> effect \<lparr>GetMouseMode = MouseModeVT200, CellWidth = 10, CellHeight = 20,
        written = [], logged = []\<rparr>
       (mouseButtonCallback \<lparr>GetMouseMode = MouseModeVT200, CellWidth = 10, CellHeight = 20,
        written = [], logged = []\<rparr> \<lparr>GetCursorPos = (955, 25)\<rparr> MouseButton1 Press 0)
       = Inr [0x1B, 0x5B, 0x4D, 0x20, 0xC2, 0x80, 0x22]"
  using vt200_press_button1_packet
    [of "\<lparr>GetMouseMode = MouseModeVT200, CellWidth = 10, CellHeight = 20,
        written = [], logged = []\<rparr>" "\<lparr>GetCursorPos = (955, 25)\<rparr>" 955 25
        "\<lfloor>(955::real) / 10\<rfloor> + 1" "\<lfloor>(25::real) / 20\<rfloor> + 1"]
  by simp

section \<open>X10 compatibility mode: the button\<close>

text \<open>
  Claim C5 says that in X10 mode a press of a button other than buttons 1 to 3 produces
  no packet. The X10 case of the source does not look at the button beyond encoding
  it: \<open>b := rune(button)\<close> is sent as \<open>b + 32\<close>, whatever the button. A press of
  button 4 (\<open>glfw.MouseButton4\<close>, numbered 3) with cells of 10 by 20 pixels and the
  pointer at (15, 25) writes a packet with the button character \<open>#\<close>.
\<close>

theorem x10_press_other_button_example:
  "effect \<lparr>GetMouseMode = MouseModeX10, CellWidth = 10, CellHeight = 20,
        written = [], logged = []\<rparr>
       (mouseButtonCallback \<lparr>GetMouseMode = MouseModeX10, CellWidth = 10, CellHeight = 20,
        written = [], logged = []\<rparr> \<lparr>GetCursorPos = (15, 25)\<rparr> MouseButton4 Press 0)
       = Inr [0x1B, 0x5B, 0x4D, 0x23, 0x22, 0x22]
   \<and> effect \<lparr>GetMouseMode = MouseModeX10, CellWidth = 10, CellHeight = 20,
        written = [], logged = []\<rparr>
       (mouseButtonCallback \<lparr>GetMouseMode = MouseModeX10, CellWidth = 10, CellHeight = 20,
        written = [], logged = []\<rparr> \<lparr>GetCursorPos = (15, 25)\<rparr> MouseButton4 Press 0)
       \<noteq> Inr []"
  by (simp add: mouseButtonCallback_def effect_def Write_def Sprintf_def fmtC_def
        EncodeRune_def MaxRune_def cell_eval rune_of_int_def MouseButton4_def)

text \<open>
  Claim C5, amended. In X10 mode every press writes a packet and raises no error,
  whatever the button: for the button numbered \<open>n\<close> by GLFW (button 1 is 0, button 2
  is 1, and so on; any \<open>n\<close> from 0 to 95) the packet starts with \<open>ESC [ M\<close> and the
  single byte \<open>n + 32\<close>.
\<close>

theorem x10_press_any_button:
  assumes "GetMouseMode gui = MouseModeX10" and "0 \<le> button" and "button \<le> 95"
  shows "\<exists>rest. effect gui (mouseButtonCallback gui w button Press mods) =
           Inr ([0x1B, 0x5B, 0x4D, word_of_int (button + 32)] @ rest)"
proof -
  have "fmtC (scast (rune_of_int (button + 32))) = [word_of_int (button + 32)]"
    using assms by (simp add: fmtC_ascii)
  then show ?thesis
    using assms(1) by (simp add: callback_X10 effect_Write Sprintf_def rune_of_int_add)
qed

text \<open>The theorem at a press of button 4.\<close>

theorem x10_press_any_button_witness:
  "GetMouseMode \<lparr>GetMouseMode = MouseModeX10, CellWidth = 10, CellHeight = 20,
        written = [], logged = []\<rparr> = MouseModeX10
   \<and> 0 \<le> MouseButton4 \<and> MouseButton4 \<le> 95
   \<and> (\<exists>rest. effect \<lparr>GetMouseMode = MouseModeX10, CellWidth = 10, CellHeight = 20,
        written = [], logged = []\<rparr>
       (mouseButtonCallback \<lparr>GetMouseMode = MouseModeX10, CellWidth = 10, CellHeight = 20,
        written = [], logged = []\<rparr> \<lparr>GetCursorPos = (15, 25)\<rparr> MouseButton4 Press 0)
       = Inr ([0x1B, 0x5B, 0x4D, 0x23] @ rest))"
  using x10_press_any_button
    [of "\<lparr>GetMouseMode = MouseModeX10, CellWidth = 10, CellHeight = 20,
        written = [], logged = []\<rparr>" MouseButton4 "\<lparr>GetCursorPos = (15, 25)\<rparr>" 0]
  by (simp add: MouseButton4_def)

section \<open>The cell coordinates\<close>

text \<open>
  Claim C8 says that for every non-negative pixel position and every positive cell
  metrics the encoder computes \<open>column = floor(pixelX / cellWidth) + 1\<close> and
  \<open>row = floor(pixelY / cellHeight) + 1\<close>. The source converts the floor of the
  quotient to \<open>int\<close>, and a quotient of \<open>2^63\<close> or more does not fit. With cells of 10
  by 20 pixels and the pointer at x = 1e30 (the \<open>float64\<close> nearest to it,
  1000000000000000019884624838656), y = 25, the conversion gives \<open>- 2^63\<close>, the column
  is \<open>- 2^63 + 1\<close> and not \<open>floor(pixelX / cellWidth) + 1\<close>, and the low 32 bits of
  \<open>column + 32\<close> make the packet carry \<open>!\<close>, the character of column 1.
\<close>

theorem huge_pixel_example:
  "(0::real) \<le> 1000000000000000019884624838656 \<and> (0::real) \<le> 25
   \<and> (0::real) < 10 \<and> (0::real) < 20
   \<and> \<lfloor>(1000000000000000019884624838656::real) / 10\<rfloor> + 1
       = (100000000000000001988462483866::int)
   \<and> cell 1000000000000000019884624838656 10 = - 9223372036854775807
   \<and> cell 1000000000000000019884624838656 10
       \<noteq> \<lfloor>(1000000000000000019884624838656::real) / 10\<rfloor> + 1
   \<and> effect \<lparr>GetMouseMode = MouseModeVT200, CellWidth = 10, CellHeight = 20,
        written = [], logged = []\<rparr>
       (mouseButtonCallback \<lparr>GetMouseMode = MouseModeVT200, CellWidth = 10, CellHeight = 20,
        written = [], logged = []\<rparr>
        \<lparr>GetCursorPos = (1000000000000000019884624838656, 25)\<rparr> MouseButton1 Press 0)
       = Inr [0x1B, 0x5B, 0x4D, 0x20, 0x21, 0x22]"
  by (simp add: mouseButtonCallback_def effect_def Write_def Infof_def Sprintf_def fmtC_def
        EncodeRune_def MaxRune_def cell_eval vt200Button_def withModifiers_def rune_of_int_def
        MouseButton1_def ModShift_def ModSuper_def ModControl_def)

text \<open>
  Claim C8, amended. For every non-negative pixel position and all positive cell
  metrics whose column \<open>floor(pixelX / cellWidth) + 1\<close> and row
  \<open>floor(pixelY / cellHeight) + 1\<close> have a character \<open>value + 32\<close> that is a code point
  (at most U+10FFFF), the encoder computes exactly this column and this row; both are at
  least 1, never 0, and a pointer at pixel 0 gives column 1 or row 1. Every press in X10
  mode, and every release or press of button 1, 2 or 3 in VT200 mode, writes a packet
  whose column and row parameters are the characters of \<open>column + 32\<close> and \<open>row + 32\<close>.
\<close>

theorem cell_coordinates:
  assumes "GetCursorPos w = (px, py)"
    and "0 \<le> px" and "0 \<le> py" and "0 < CellWidth gui" and "0 < CellHeight gui"
    and "col = \<lfloor>px / CellWidth gui\<rfloor> + 1" and "row = \<lfloor>py / CellHeight gui\<rfloor> + 1"
    and "col + 32 \<le> 1114111" and "row + 32 \<le> 1114111"
  shows "cell px (CellWidth gui) = col \<and> cell py (CellHeight gui) = row
       \<and> 1 \<le> col \<and> 1 \<le> row
       \<and> (px = 0 \<longrightarrow> col = 1) \<and> (py = 0 \<longrightarrow> row = 1)
       \<and> (GetMouseMode gui = MouseModeX10 \<longrightarrow>
            effect gui (mouseButtonCallback gui w button Press mods) =
              Inr ([0x1B, 0x5B, 0x4D] @ fmtC (scast (rune_of_int (button + 32)))
                   @ fmtC (scast (rune_of_int (col + 32)))
                   @ fmtC (scast (rune_of_int (row + 32)))))
       \<and> (GetMouseMode gui = MouseModeVT200 \<and>
            (action = Release \<or> action = Press \<and>
               (button = MouseButton1 \<or> button = MouseButton2 \<or> button = MouseButton3)) \<longrightarrow>
            (\<exists>bb::byte. effect gui (mouseButtonCallback gui w button action mods) =
              Inr ([0x1B, 0x5B, 0x4D, bb]
                   @ fmtC (scast (rune_of_int (col + 32)))
                   @ fmtC (scast (rune_of_int (row + 32))))))"
proof -
  have q: "0 \<le> px / CellWidth gui" "0 \<le> py / CellHeight gui"
    using assms(2-5) by simp_all
  then have f: "0 \<le> \<lfloor>px / CellWidth gui\<rfloor>" "0 \<le> \<lfloor>py / CellHeight gui\<rfloor>"
    by simp_all
  then have ge: "1 \<le> col" "1 \<le> row" using assms(6,7) by simp_all
  have cx: "cell px (CellWidth gui) = col"
    using assms(4,6,8) ge(1) by (intro cell_rune_range) simp_all
  have cy: "cell py (CellHeight gui) = row"
    using assms(5,7,9) ge(2) by (intro cell_rune_range) simp_all
  have c: "cell (fst (GetCursorPos w)) (CellWidth gui) = col"
          "cell (snd (GetCursorPos w)) (CellHeight gui) = row"
    using assms(1) cx cy by simp_all
  have z: "px = 0 \<Longrightarrow> col = 1" "py = 0 \<Longrightarrow> row = 1"
    using assms(6,7) by simp_all
  have x10: "effect gui (mouseButtonCallback gui w button Press mods) =
              Inr ([0x1B, 0x5B, 0x4D] @ fmtC (scast (rune_of_int (button + 32)))
                   @ fmtC (scast (rune_of_int (col + 32)))
                   @ fmtC (scast (rune_of_int (row + 32))))"
    if "GetMouseMode gui = MouseModeX10"
    using that by (simp add: callback_X10 c effect_Write Sprintf_def rune_of_int_add)
  have vt: "\<exists>bb::byte. effect gui (mouseButtonCallback gui w button action mods) =
              Inr ([0x1B, 0x5B, 0x4D, bb]
                   @ fmtC (scast (rune_of_int (col + 32)))
                   @ fmtC (scast (rune_of_int (row + 32))))"
    if m: "GetMouseMode gui = MouseModeVT200"
      and a: "action = Release \<or> action = Press \<and>
               (button = MouseButton1 \<or> button = MouseButton2 \<or> button = MouseButton3)"
  proof -
    from a obtain b0 where b0: "vt200Button button action = Some b0"
      using vt200Button_None[of button action] by (cases "vt200Button button action") auto
    from vt200Button_Some[OF b0] have r: "b0 = 0 \<or> b0 = 1 \<or> b0 = 2 \<or> b0 = 3" by blast
    have "effect gui (mouseButtonCallback gui w button action mods) =
            Inr ([0x1B, 0x5B, 0x4D, withModifiers mods b0 + 32]
                   @ fmtC (scast (rune_of_int (col + 32)))
                   @ fmtC (scast (rune_of_int (row + 32))))"
      using m b0 by (simp add: callback_VT200 c effect_Write_Infof Let_def Sprintf_def
          button_char[OF r])
    then show ?thesis ..
  qed
  show ?thesis using cx cy ge z x10 vt by blast
qed

text \<open>
  The theorem at an X10 press with the pointer at (15, 25), column 2 and row 2, and at a
  VT200 press with the pointer at (0, 0), column 1 and row 1; cells of 10 by 20 pixels.
\<close>

theorem cell_coordinates_witness:
  "(0::real) \<le> 15 \<and> (0::real) \<le> 25 \<and> (0::real) < 10 \<and> (0::real) < 20
   \<and> \<lfloor>(15::real) / 10\<rfloor> + 1 + 32 \<le> 1114111 \<and> \<lfloor>(25::real) / 20\<rfloor> + 1 + 32 \<le> 1114111
   \<and> cell 15 10 = 2 \<and> cell 25 20 = 2
   \<and> effect \<lparr>GetMouseMode = MouseModeX10, CellWidth = 10, CellHeight = 20,
        written = [], logged = []\<rparr>
       (mouseButtonCallback \<lparr>GetMouseMode = MouseModeX10, CellWidth = 10, CellHeight = 20,
        written = [], logged = []\<rparr> \<lparr>GetCursorPos = (15, 25)\<rparr> MouseButton1 Press 0)
       = Inr [0x1B, 0x5B, 0x4D, 0x20, 0x22, 0x22]
   \<and> cell 0 10 = 1 \<and> cell 0 20 = 1
   \<and> (\<exists>bb. effect \<lparr>GetMouseMode = MouseModeVT200, CellWidth = 10, CellHeight = 20,
        written = [], logged = []\<rparr>
       (mouseButtonCallback \<lparr>GetMouseMode = MouseModeVT200, CellWidth = 10, CellHeight = 20,
        written = [], logged = []\<rparr> \<lparr>GetCursorPos = (0, 0)\<rparr> MouseButton1 Press 0)
       = Inr [0x1B, 0x5B, 0x4D, bb, 0x21, 0x21])"
proof -
  let ?gx = "\<lparr>GetMouseMode = MouseModeX10, CellWidth = 10, CellHeight = 20,
          written = [], logged = []\<rparr>"
  let ?gv = "\<lparr>GetMouseMode = MouseModeVT200, CellWidth = 10, CellHeight = 20,
          written = [], logged = []\<rparr>"
  have a: "fmtC (scast (rune_of_int 32)) = [0x20]" "fmtC (scast (rune_of_int 33)) = [0x21]"
    "fmtC (scast (rune_of_int 34)) = [0x22]"
    using fmtC_ascii[of 32] fmtC_ascii[of 33] fmtC_ascii[of 34] by simp_all
  have x: "cell 15 (CellWidth ?gx) = 2 \<and> cell 25 (CellHeight ?gx) = 2
       \<and> 1 \<le> (2::int) \<and> 1 \<le> (2::int)
       \<and> ((15::real) = 0 \<longrightarrow> (2::int) = 1) \<and> ((25::real) = 0 \<longrightarrow> (2::int) = 1)
       \<and> (GetMouseMode ?gx = MouseModeX10 \<longrightarrow>
            effect ?gx (mouseButtonCallback ?gx \<lparr>GetCursorPos = (15, 25)\<rparr> MouseButton1 Press 0) =
              Inr ([0x1B, 0x5B, 0x4D] @ fmtC (scast (rune_of_int (MouseButton1 + 32)))
                   @ fmtC (scast (rune_of_int (2 + 32)))
                   @ fmtC (scast (rune_of_int (2 + 32)))))
       \<and> (GetMouseMode ?gx = MouseModeVT200 \<and>
            (Press = Release \<or> Press = Press \<and>
               (MouseButton1 = MouseButton1 \<or> MouseButton1 = MouseButton2 \<or> MouseButton1 = MouseButton3)) \<longrightarrow>
            (\<exists>bb::byte. effect ?gx (mouseButtonCallback ?gx \<lparr>GetCursorPos = (15, 25)\<rparr> MouseButton1 Press 0) =
              Inr ([0x1B, 0x5B, 0x4D, bb]
                   @ fmtC (scast (rune_of_int (2 + 32)))
                   @ fmtC (scast (rune_of_int (2 + 32))))))"
    by (rule cell_coordinates) simp_all
  have v: "cell 0 (CellWidth ?gv) = 1 \<and> cell 0 (CellHeight ?gv) = 1
       \<and> 1 \<le> (1::int) \<and> 1 \<le> (1::int)
       \<and> ((0::real) = 0 \<longrightarrow> (1::int) = 1) \<and> ((0::real) = 0 \<longrightarrow> (1::int) = 1)
       \<and> (GetMouseMode ?gv = MouseModeX10 \<longrightarrow>
            effect ?gv (mouseButtonCallback ?gv \<lparr>GetCursorPos = (0, 0)\<rparr> MouseButton1 Press 0) =
              Inr ([0x1B, 0x5B, 0x4D] @ fmtC (scast (rune_of_int (MouseButton1 + 32)))
                   @ fmtC (scast (rune_of_int (1 + 32)))
                   @ fmtC (scast (rune_of_int (1 + 32)))))
       \<and> (GetMouseMode ?gv = MouseModeVT200 \<and>
            (Press = Release \<or> Press = Press \<and>
               (MouseButton1 = MouseButton1 \<or> MouseButton1 = MouseButton2 \<or> MouseButton1 = MouseButton3)) \<longrightarrow>
            (\<exists>bb::byte. effect ?gv (mouseButtonCallback ?gv \<lparr>GetCursorPos = (0, 0)\<rparr> MouseButton1 Press 0) =
              Inr ([0x1B, 0x5B, 0x4D, bb]
                   @ fmtC (scast (rune_of_int (1 + 32)))
                   @ fmtC (scast (rune_of_int (1 + 32))))))"
    by (rule cell_coordinates) simp_all
  from x have x1: "cell 15 10 = 2" "cell 25 20 = 2" by simp_all
  from x have "effect ?gx (mouseButtonCallback ?gx \<lparr>GetCursorPos = (15, 25)\<rparr> MouseButton1 Press 0) =
              Inr ([0x1B, 0x5B, 0x4D] @ fmtC (scast (rune_of_int (MouseButton1 + 32)))
                   @ fmtC (scast (rune_of_int (2 + 32)))
                   @ fmtC (scast (rune_of_int (2 + 32))))" by simp
  then have x2: "effect ?gx (mouseButtonCallback ?gx \<lparr>GetCursorPos = (15, 25)\<rparr> MouseButton1 Press 0) =
              Inr [0x1B, 0x5B, 0x4D, 0x20, 0x22, 0x22]"
    by (simp add: MouseButton1_def a)
  from v have v1: "cell 0 10 = 1" "cell 0 20 = 1" by simp_all
  from v have "\<exists>bb::byte. effect ?gv (mouseButtonCallback ?gv \<lparr>GetCursorPos = (0, 0)\<rparr> MouseButton1 Press 0) =
              Inr ([0x1B, 0x5B, 0x4D, bb]
                   @ fmtC (scast (rune_of_int (1 + 32)))
                   @ fmtC (scast (rune_of_int (1 + 32))))" by simp
  then have v2: "\<exists>bb. effect ?gv (mouseButtonCallback ?gv \<lparr>GetCursorPos = (0, 0)\<rparr> MouseButton1 Press 0) =
              Inr [0x1B, 0x5B, 0x4D, bb, 0x21, 0x21]"
    by (simp add: a)
  show ?thesis using x1 x2 v1 v2 by simp
qed










section \<open>Parameters beyond one byte\<close>

lemma long_param:
  "128 \<le> v \<Longrightarrow> v < 2147483648 \<Longrightarrow> 2 \<le> length (fmtC (scast (rune_of_int v)))"
  by (rule length_fmtC_multi) (simp add: rune_of_int_high)

lemma length_Sprintf_long:
  "2 \<le> length (fmtC (scast b)) \<or> 2 \<le> length (fmtC (scast x)) \<or> 2 \<le> length (fmtC (scast y))
   \<Longrightarrow> 6 < length (Sprintf b x y)"
  using length_fmtC_pos[of b] length_fmtC_pos[of x] length_fmtC_pos[of y]
  unfolding length_Sprintf by arith

text \<open>
  Claim C10 says that every packet whose column, row or button parameter has
  \<open>value + 32 \<ge> 128\<close> is longer than six bytes. The conversion \<open>rune(x + 32)\<close> keeps
  the low 32 bits only, so a value of \<open>2^32\<close> or more can come back as a character below
  128. With cells of 10 by 20 pixels and the pointer at (42949673285, 5) the column is
  4294967329 and \<open>column + 32 = 2^32 + 65\<close>: the column is written as \<open>A\<close> (0x41) and the
  packet has six bytes.
\<close>

theorem high_parameter_wraps_example:
  "\<lfloor>(42949673285::real) / 10\<rfloor> + 1 + 32 = (4294967361::int)
   \<and> (128::int) \<le> 4294967361
   \<and> effect \<lparr>GetMouseMode = MouseModeVT200, CellWidth = 10, CellHeight = 20,
        written = [], logged = []\<rparr>
       (mouseButtonCallback \<lparr>GetMouseMode = MouseModeVT200, CellWidth = 10, CellHeight = 20,
        written = [], logged = []\<rparr> \<lparr>GetCursorPos = (42949673285, 5)\<rparr> MouseButton1 Press 0)
       = Inr [0x1B, 0x5B, 0x4D, 0x20, 0x41, 0x21]
   \<and> \<not> 6 < length [0x1B, 0x5B, 0x4D, 0x20, 0x41, 0x21 :: byte]"
  by (simp add: mouseButtonCallback_def effect_def Write_def Infof_def Sprintf_def fmtC_def
        EncodeRune_def MaxRune_def cell_eval vt200Button_def withModifiers_def rune_of_int_def
        MouseButton1_def ModShift_def ModSuper_def ModControl_def)

text \<open>
  Claim C10, amended. For every packet written in X10 or VT200 mode, if the column, the
  row or the button parameter has \<open>value + 32 \<ge> 128\<close> and \<open>value + 32\<close> fits a rune
  (it is below \<open>2^31\<close>), the packet is longer than six bytes: \<open>%c\<close> writes a code point
  above 0x7F as several UTF-8 bytes. Only X10 mode can have a button parameter that
  large: the button code of VT200 mode is at most 31.
\<close>

theorem high_parameter_makes_packet_longer:
  assumes "effect gui (mouseButtonCallback gui w button action mods) = Inr p" and "p \<noteq> []"
    and "GetCursorPos w = (px, py)"
    and "col = \<lfloor>px / CellWidth gui\<rfloor> + 1" and "row = \<lfloor>py / CellHeight gui\<rfloor> + 1"
    and "(128 \<le> col + 32 \<and> col + 32 < 2147483648)
       \<or> (128 \<le> row + 32 \<and> row + 32 < 2147483648)
       \<or> (GetMouseMode gui = MouseModeX10 \<and> 128 \<le> button + 32 \<and> button + 32 < 2147483648)"
  shows "6 < length p"
proof -
  have px: "fst (GetCursorPos w) = px" and py: "snd (GetCursorPos w) = py"
    using assms(3) by simp_all
  from effect_shape[OF assms(1,2)] obtain b where
    p: "p = Sprintf b (rune_of_int (cell px (CellWidth gui) + 32))
                      (rune_of_int (cell py (CellHeight gui) + 32))"
    by (auto simp add: px py)
  from assms(6) consider
      (col) "128 \<le> col + 32" "col + 32 < 2147483648"
    | (row) "128 \<le> row + 32" "row + 32 < 2147483648"
    | (button) "GetMouseMode gui = MouseModeX10" "128 \<le> button + 32" "button + 32 < 2147483648"
    by blast
  then show ?thesis
  proof cases
    case col
    then have "col \<noteq> 1" by simp
    with assms(4) have "CellWidth gui \<noteq> 0" by (rule cell_nonzero)
    then have "cell px (CellWidth gui) = col"
      using assms(4) col by (intro cell_rune_range) simp_all
    moreover have "2 \<le> length (fmtC (scast (rune_of_int (col + 32))))"
      using col by (rule long_param)
    ultimately show ?thesis unfolding p by (intro length_Sprintf_long) simp
  next
    case row
    then have "row \<noteq> 1" by simp
    with assms(5) have "CellHeight gui \<noteq> 0" by (rule cell_nonzero)
    then have "cell py (CellHeight gui) = row"
      using assms(5) row by (intro cell_rune_range) simp_all
    moreover have "2 \<le> length (fmtC (scast (rune_of_int (row + 32))))"
      using row by (rule long_param)
    ultimately show ?thesis unfolding p by (intro length_Sprintf_long) simp
  next
    case button
    then have "2 \<le> length (fmtC (scast (rune_of_int (button + 32))))" by (intro long_param)
    moreover from assms(1,2) button(1) have
      "p = Sprintf (rune_of_int (button + 32))
             (rune_of_int (cell px (CellWidth gui) + 32))
             (rune_of_int (cell py (CellHeight gui) + 32))"
      by (simp add: callback_X10 px py effect_Write effect_same rune_of_int_add split: if_splits)
    ultimately show ?thesis by (simp add: length_Sprintf_long)
  qed
qed

text \<open>The theorem at an X10 press with the pointer in column 96.\<close>

theorem high_parameter_makes_packet_longer_witness:
  "effect \<lparr>GetMouseMode = MouseModeX10, CellWidth = 10, CellHeight = 20,
        written = [], logged = []\<rparr>
       (mouseButtonCallback \<lparr>GetMouseMode = MouseModeX10, CellWidth = 10, CellHeight = 20,
        written = [], logged = []\<rparr> \<lparr>GetCursorPos = (955, 25)\<rparr> MouseButton1 Press 0)
       = Inr [0x1B, 0x5B, 0x4D, 0x20, 0xC2, 0x80, 0x22]
   \<and> [0x1B, 0x5B, 0x4D, 0x20, 0xC2, 0x80, 0x22] \<noteq> ([] :: byte list)
   \<and> 128 \<le> \<lfloor>(955::real) / 10\<rfloor> + 1 + 32 \<and> \<lfloor>(955::real) / 10\<rfloor> + 1 + 32 < 2147483648
   \<and> 6 < length [0x1B, 0x5B, 0x4D, 0x20, 0xC2, 0x80, 0x22 :: byte]"
proof -
  let ?g = "\<lparr>GetMouseMode = MouseModeX10, CellWidth = 10, CellHeight = 20,
        written = [], logged = []\<rparr>"
  have e: "effect ?g (mouseButtonCallback ?g \<lparr>GetCursorPos = (955, 25)\<rparr> MouseButton1 Press 0)
       = Inr [0x1B, 0x5B, 0x4D, 0x20, 0xC2, 0x80, 0x22]"
    by (simp add: mouseButtonCallback_def effect_def Write_def Sprintf_def fmtC_def
        EncodeRune_def MaxRune_def cell_eval rune_of_int_def MouseButton1_def)
  have n: "[0x1B, 0x5B, 0x4D, 0x20, 0xC2, 0x80, 0x22] \<noteq> ([] :: byte list)" by simp
  show ?thesis
    using high_parameter_makes_packet_longer[OF e n, of 955 25
        "\<lfloor>(955::real) / 10\<rfloor> + 1" "\<lfloor>(25::real) / 20\<rfloor> + 1"] e
    by simp
qed

text \<open>
  Claim C3 says that an event whose column or row does not fit the single-byte
  parameter (\<open>value + 32\<close> above 255) is answered by the error
  \<open>CoordinateOutOfRange\<close> and that no packet is sent. The source has no such error and
  no check of the coordinates. With cells of 10 by 20 pixels and the pointer at
  (2995, 25), column 300, a press of button 1 in VT200 mode writes a packet of seven
  bytes, the column as the two UTF-8 bytes of code point 332.
\<close>

theorem out_of_range_coordinate_example:
  "255 < \<lfloor>(2995::real) / 10\<rfloor> + 1 + 32
   \<and> effect \<lparr>GetMouseMode = MouseModeVT200, CellWidth = 10, CellHeight = 20,
        written = [], logged = []\<rparr>
       (mouseButtonCallback \<lparr>GetMouseMode = MouseModeVT200, CellWidth = 10, CellHeight = 20,
        written = [], logged = []\<rparr> \<lparr>GetCursorPos = (2995, 25)\<rparr> MouseButton1 Press 0)
       = Inr [0x1B, 0x5B, 0x4D, 0x20, 0xC5, 0x8C, 0x22]"
  by (simp add: mouseButtonCallback_def effect_def Write_def Infof_def Sprintf_def fmtC_def
        EncodeRune_def MaxRune_def cell_eval vt200Button_def withModifiers_def rune_of_int_def
        MouseButton1_def ModShift_def ModSuper_def ModControl_def)

text \<open>
  Claim C3, amended. There is no \<open>CoordinateOutOfRange\<close> error. For every event that the
  mode reports (a press in X10 mode; a release, or a press of button 1, 2 or 3, in
  VT200 mode) whose column or row has \<open>value + 32\<close> above 255 (and below \<open>2^31\<close>, so
  that it fits a rune), the callback does not panic and writes a packet; the
  parameter is not wrapped to one byte but written in UTF-8, so the packet is longer
  than six bytes.
\<close>

theorem out_of_range_coordinate_is_sent:
  assumes "GetMouseMode gui = MouseModeX10 \<and> action = Press
         \<or> GetMouseMode gui = MouseModeVT200 \<and>
             (action = Release \<or> action = Press \<and>
                (button = MouseButton1 \<or> button = MouseButton2 \<or> button = MouseButton3))"
    and "GetCursorPos w = (px, py)"
    and "col = \<lfloor>px / CellWidth gui\<rfloor> + 1" and "row = \<lfloor>py / CellHeight gui\<rfloor> + 1"
    and "(255 < col + 32 \<and> col + 32 < 2147483648)
       \<or> (255 < row + 32 \<and> row + 32 < 2147483648)"
  shows "\<exists>p. effect gui (mouseButtonCallback gui w button action mods) = Inr p \<and> 6 < length p"
proof -
  have px: "fst (GetCursorPos w) = px" and py: "snd (GetCursorPos w) = py"
    using assms(2) by simp_all
  have "\<exists>b. effect gui (mouseButtonCallback gui w button action mods) =
          Inr (Sprintf b (rune_of_int (cell px (CellWidth gui) + 32))
                         (rune_of_int (cell py (CellHeight gui) + 32)))"
  proof -
    from assms(1) consider
        (x10) "GetMouseMode gui = MouseModeX10" "action = Press"
      | (vt200) "GetMouseMode gui = MouseModeVT200" "vt200Button button action \<noteq> None"
      by (auto simp add: vt200Button_None)
    then show ?thesis
    proof cases
      case x10
      then show ?thesis by (auto simp add: callback_X10 px py effect_Write)
    next
      case vt200
      then show ?thesis by (auto simp add: callback_VT200 px py effect_Write_Infof Let_def)
    qed
  qed
  then obtain b where e: "effect gui (mouseButtonCallback gui w button action mods) =
          Inr (Sprintf b (rune_of_int (cell px (CellWidth gui) + 32))
                         (rune_of_int (cell py (CellHeight gui) + 32)))" ..
  have "2 \<le> length (fmtC (scast (rune_of_int (cell px (CellWidth gui) + 32))))
      \<or> 2 \<le> length (fmtC (scast (rune_of_int (cell py (CellHeight gui) + 32))))"
  proof -
    from assms(5) consider
        (col) "255 < col + 32" "col + 32 < 2147483648"
      | (row) "255 < row + 32" "row + 32 < 2147483648"
      by blast
    then show ?thesis
    proof cases
      case col
      then have "col \<noteq> 1" by simp
      with assms(3) have "CellWidth gui \<noteq> 0" by (rule cell_nonzero)
      then have "cell px (CellWidth gui) = col"
        using assms(3) col by (intro cell_rune_range) simp_all
      moreover have "2 \<le> length (fmtC (scast (rune_of_int (col + 32))))"
        using col by (intro long_param) simp_all
      ultimately show ?thesis by simp
    next
      case row
      then have "row \<noteq> 1" by simp
      with assms(4) have "CellHeight gui \<noteq> 0" by (rule cell_nonzero)
      then have "cell py (CellHeight gui) = row"
        using assms(4) row by (intro cell_rune_range) simp_all
      moreover have "2 \<le> length (fmtC (scast (rune_of_int (row + 32))))"
        using row by (intro long_param) simp_all
      ultimately show ?thesis by simp
    qed
  qed
  then have "6 < length (Sprintf b (rune_of_int (cell px (CellWidth gui) + 32))
                         (rune_of_int (cell py (CellHeight gui) + 32)))"
    by (intro length_Sprintf_long) blast
  with e show ?thesis by blast
qed

text \<open>The theorem at the press of button 1 with the pointer in column 300.\<close>

theorem out_of_range_coordinate_is_sent_witness:
  "GetMouseMode \<lparr>GetMouseMode = MouseModeVT200, CellWidth = 10, CellHeight = 20,
        written = [], logged = []\<rparr> = MouseModeVT200
   \<and> 255 < \<lfloor>(2995::real) / 10\<rfloor> + 1 + 32 \<and> \<lfloor>(2995::real) / 10\<rfloor> + 1 + 32 < 2147483648
   \<and> (\<exists>p. effect \<lparr>GetMouseMode = MouseModeVT200, CellWidth = 10, CellHeight = 20,
        written = [], logged = []\<rparr>
       (mouseButtonCallback \<lparr>GetMouseMode = MouseModeVT200, CellWidth = 10, CellHeight = 20,
        written = [], logged = []\<rparr> \<lparr>GetCursorPos = (2995, 25)\<rparr> MouseButton1 Press 0)
       = Inr p \<and> 6 < length p)"
  using out_of_range_coordinate_is_sent
    [of "\<lparr>GetMouseMode = MouseModeVT200, CellWidth = 10, CellHeight = 20,
        written = [], logged = []\<rparr>" Press MouseButton1 "\<lparr>GetCursorPos = (2995, 25)\<rparr>" 2995 25
        "\<lfloor>(2995::real) / 10\<rfloor> + 1" "\<lfloor>(25::real) / 20\<rfloor> + 1" 0]
  by simp

end
